theory Spec2Isabelle
  imports Complex_Main
begin

section \<open>Neon Space Shooter: the simulation loop of \<^verbatim>\<open>src/index.tsx\<close>\<close>

text \<open>
  The embedding follows the TypeScript source function by function. JavaScript numbers
  that hold coordinates and speeds are modelled by \<^typ>\<open>real\<close> with exact arithmetic;
  counters (\<^verbatim>\<open>score\<close>, \<^verbatim>\<open>lives\<close>, \<^verbatim>\<open>level\<close>, \<^verbatim>\<open>enemyDir\<close>) and the
  millisecond clock \<^verbatim>\<open>Date.now()\<close> are modelled by \<^typ>\<open>int\<close>. Drawing calls do not
  change the game world and are left out. The three pieces of ambient state the loop
  touches are made explicit: the React state written by \<^verbatim>\<open>setGameState\<close>,
  \<^verbatim>\<open>setScore\<close> and \<^verbatim>\<open>setLives\<close>, the sequence of sounds handed to
  \<^verbatim>\<open>audioService.playSound\<close>, and the number of \<^verbatim>\<open>Math.random()\<close> calls made so
  far (the \<open>n\<close>-th call returns \<open>rnd n\<close> for a sequence \<open>rnd\<close> given from outside).
\<close>

subsection \<open>Configuration and types\<close>

datatype GameState = START | PLAYING | GAMEOVER | PAUSED

record InputState =
  left :: bool
  right :: bool
  shoot :: bool

datatype Sound = SndShoot | SndExplosion | SndGameover | SndPowerup

definition COLORS_blue :: string where "COLORS_blue = ''#00ffff''"
definition COLORS_pink :: string where "COLORS_pink = ''#ff00ff''"
definition COLORS_green :: string where "COLORS_green = ''#00ff00''"
definition COLORS_red :: string where "COLORS_red = ''#ff0000''"
definition COLORS_yellow :: string where "COLORS_yellow = ''#ffff00''"

definition GAME_WIDTH :: real where "GAME_WIDTH = 800"
definition GAME_HEIGHT :: real where "GAME_HEIGHT = 600"

subsection \<open>Entities\<close>

text \<open>
  Class \<^verbatim>\<open>GameObject\<close> and its subclasses are records, the subclasses extending the
  base record. The fields \<^verbatim>\<open>x\<close> and \<^verbatim>\<open>y\<close> are called \<open>posX\<close> and \<open>posY\<close>, and
  \<^verbatim>\<open>Enemy.type\<close> is called \<open>etype\<close>. \<^verbatim>\<open>Powerup\<close> adds no field to its base class.
\<close>

record GameObject =
  posX :: real
  posY :: real
  width :: real
  height :: real
  color :: string
  markedForDeletion :: bool

record Player = GameObject +
  speed :: real
  lastShot :: int

record Projectile = GameObject +
  pspeed :: real
  isPlayer :: bool

record Enemy = GameObject +
  etype :: int
  points :: int
  hasPowerup :: bool

type_synonym Powerup = GameObject

record Particle = GameObject +
  vx :: real
  vy :: real
  life :: real

definition new_Player :: Player where
  "new_Player =
     \<lparr>posX = GAME_WIDTH / 2 - 20, posY = GAME_HEIGHT - 60, width = 40, height = 40,
      color = COLORS_blue, markedForDeletion = False, speed = 8, lastShot = 0\<rparr>"

definition new_Projectile :: "real \<Rightarrow> real \<Rightarrow> real \<Rightarrow> string \<Rightarrow> bool \<Rightarrow> Projectile" where
  "new_Projectile x y spd col isP =
     \<lparr>posX = x, posY = y, width = 4, height = 12, color = col,
      markedForDeletion = False, pspeed = spd, isPlayer = isP\<rparr>"

definition new_Enemy :: "real \<Rightarrow> real \<Rightarrow> int \<Rightarrow> bool \<Rightarrow> Enemy" where
  "new_Enemy x y ty hasP =
     \<lparr>posX = x, posY = y, width = 35, height = 35,
      color = (let c = (if ty = 1 then COLORS_red else if ty = 2 then COLORS_pink
                        else COLORS_green)
               in if hasP then ''#ffaa00'' else c),
      markedForDeletion = False,
      etype = ty,
      points = (if ty = 1 then 50 else if ty = 2 then 30 else 10),
      hasPowerup = hasP\<rparr>"

definition new_Powerup :: "real \<Rightarrow> real \<Rightarrow> Powerup" where
  "new_Powerup x y =
     \<lparr>posX = x, posY = y, width = 20, height = 20, color = ''#00ff00'',
      markedForDeletion = False\<rparr>"

text \<open>The constructor of \<^verbatim>\<open>Particle\<close> draws \<^verbatim>\<open>vx\<close> first and \<^verbatim>\<open>vy\<close> second.\<close>

definition new_Particle :: "real \<Rightarrow> real \<Rightarrow> string \<Rightarrow> real \<Rightarrow> real \<Rightarrow> Particle" where
  "new_Particle x y col r1 r2 =
     \<lparr>posX = x, posY = y, width = 3, height = 3, color = col,
      markedForDeletion = False,
      vx = (r1 - 0.5) * 8, vy = (r2 - 0.5) * 8, life = 1\<rparr>"

subsection \<open>The game world\<close>

text \<open>
  The first nine fields are \<^verbatim>\<open>gameRef.current\<close>. \<open>gameState\<close>, \<open>hudScore\<close> and
  \<open>hudLives\<close> hold the last value passed to \<^verbatim>\<open>setGameState\<close>, \<^verbatim>\<open>setScore\<close> and
  \<^verbatim>\<open>setLives\<close>; \<open>sounds\<close> is the log of \<^verbatim>\<open>playSound\<close> calls, oldest first;
  \<open>randCalls\<close> counts the calls of \<^verbatim>\<open>Math.random()\<close>.
\<close>

record Game =
  player :: Player
  projectiles :: "Projectile list"
  enemies :: "Enemy list"
  particles :: "Particle list"
  powerups :: "Powerup list"
  score :: int
  lives :: int
  level :: int
  enemyDir :: int
  gameState :: GameState
  hudScore :: int
  hudLives :: int
  sounds :: "Sound list"
  randCalls :: nat

definition playSound :: "Sound \<Rightarrow> Game \<Rightarrow> Game" where
  "playSound s g = g\<lparr>sounds := sounds g @ [s]\<rparr>"

definition random :: "(nat \<Rightarrow> real) \<Rightarrow> Game \<Rightarrow> real \<times> Game" where
  "random rnd g = (rnd (randCalls g), g\<lparr>randCalls := Suc (randCalls g)\<rparr>)"

subsection \<open>Collision test\<close>

definition checkCollision :: "'a GameObject_scheme \<Rightarrow> 'b GameObject_scheme \<Rightarrow> bool" where
  "checkCollision rect1 rect2 \<longleftrightarrow>
     posX rect1 < posX rect2 + width rect2 \<and>
     posX rect1 + width rect1 > posX rect2 \<and>
     posY rect1 < posY rect2 + height rect2 \<and>
     posY rect1 + height rect1 > posY rect2"

subsection \<open>\<^verbatim>\<open>Player.update\<close>\<close>

text \<open>
  \<open>fireProjectile\<close> is the callback that \<^verbatim>\<open>animate\<close> passes to \<^verbatim>\<open>Player.update\<close>;
  \<open>now\<close> is the value of \<^verbatim>\<open>Date.now()\<close> read by this call.
\<close>

definition fireProjectile :: "real \<Rightarrow> real \<Rightarrow> Game \<Rightarrow> Game" where
  "fireProjectile x y g =
     g\<lparr>projectiles := projectiles g @ [new_Projectile x y (- 12) COLORS_yellow True]\<rparr>"

definition Player_move :: "InputState \<Rightarrow> Player \<Rightarrow> Player" where
  "Player_move inp p =
     (let p1 = (if left inp \<and> posX p > 0 then p\<lparr>posX := posX p - speed p\<rparr> else p)
      in if right inp \<and> posX p1 < GAME_WIDTH - width p1
         then p1\<lparr>posX := posX p1 + speed p1\<rparr> else p1)"

definition Player_update :: "InputState \<Rightarrow> int \<Rightarrow> Game \<Rightarrow> Game" where
  "Player_update inp now g =
     (let p = Player_move inp (player g);
          g1 = g\<lparr>player := p\<rparr>
      in if shoot inp \<and> now - lastShot p > 200
         then
           (let g2 = fireProjectile (posX p) (posY p) g1;
                g3 = fireProjectile (posX p + width p) (posY p) g2;
                g4 = playSound SndShoot g3
            in g4\<lparr>player := (player g4)\<lparr>lastShot := now\<rparr>\<rparr>)
         else g1)"

subsection \<open>\<^verbatim>\<open>initEnemies\<close> and \<^verbatim>\<open>initGame\<close>\<close>

definition initEnemies :: "(nat \<Rightarrow> real) \<Rightarrow> Game \<Rightarrow> Game" where
  "initEnemies rnd g =
     (let rows = (4::nat); cols = (8::nat);
          startX = (GAME_WIDTH - real cols * 50) / 2;
          (r0, g1) = random rnd g;
          powerupIndex = \<lfloor>r0 * real cols\<rfloor>
      in g1\<lparr>enemies :=
            concat (map (\<lambda>r. map (\<lambda>c.
              new_Enemy (startX + real c * 50) (50 + real r * 50)
                (if r = 0 then 1 else if r = 1 then 2 else 3)
                (r = 0 \<and> int c = powerupIndex)) [0..<cols]) [0..<rows])\<rparr>)"

definition initGame :: "(nat \<Rightarrow> real) \<Rightarrow> Game \<Rightarrow> Game" where
  "initGame rnd g =
     initEnemies rnd
       (g\<lparr>player := new_Player, projectiles := [], particles := [], powerups := [],
          score := 0, lives := 3, level := 1, enemyDir := 1,
          hudScore := 0, hudLives := 3\<rparr>)"

subsection \<open>\<^verbatim>\<open>animate\<close>: the enemy loop, edge response and wave completion\<close>

text \<open>
  \<open>enemy_dx\<close> is the amount \<^verbatim>\<open>(1.5 + g.score * 0.001) * g.enemyDir\<close> added to
  every enemy's \<^verbatim>\<open>x\<close>. \<open>enemy_step\<close> is the body of the first \<^verbatim>\<open>g.enemies.forEach\<close>; the flag
  \<^verbatim>\<open>hitEdge\<close> of the enclosing function is threaded through. The loop changes the
  enemies in place, so the model returns the changed list and \<open>enemies_phase\<close> stores it.
\<close>

definition enemy_dx :: "Game \<Rightarrow> real" where
  "enemy_dx g = (1.5 + real_of_int (score g) * 0.001) * real_of_int (enemyDir g)"

definition enemy_step ::
  "(nat \<Rightarrow> real) \<Rightarrow> Enemy \<Rightarrow> Game \<Rightarrow> bool \<Rightarrow> Enemy \<times> Game \<times> bool" where
  "enemy_step rnd e g hitEdge =
     (let e1 = e\<lparr>posX := posX e + enemy_dx g\<rparr>;
          hitEdge1 = (hitEdge \<or> posX e1 \<le> 10 \<or> posX e1 \<ge> GAME_WIDTH - 40);
          (r, g1) = random rnd g;
          g2 = (if r < 0.001 + real_of_int (level g1) * 0.0002
                then g1\<lparr>projectiles := projectiles g1 @
                        [new_Projectile (posX e1 + 15) (posY e1 + 30) 5 COLORS_red False]\<rparr>
                else g1);
          g3 = (if posY e1 + height e1 \<ge> posY (player g2)
                then playSound SndGameover (g2\<lparr>lives := 0, hudLives := 0, gameState := GAMEOVER\<rparr>)
                else g2)
      in (e1, g3, hitEdge1))"

fun enemies_forEach ::
  "(nat \<Rightarrow> real) \<Rightarrow> Enemy list \<Rightarrow> Game \<Rightarrow> bool \<Rightarrow> Enemy list \<times> Game \<times> bool" where
  "enemies_forEach rnd [] g hitEdge = ([], g, hitEdge)"
| "enemies_forEach rnd (e # es) g hitEdge =
     (let (e1, g1, hitEdge1) = enemy_step rnd e g hitEdge;
          (es1, g2, hitEdge2) = enemies_forEach rnd es g1 hitEdge1
      in (e1 # es1, g2, hitEdge2))"

definition enemies_phase :: "(nat \<Rightarrow> real) \<Rightarrow> Game \<Rightarrow> Game \<times> bool" where
  "enemies_phase rnd g =
     (let (es, g1, hitEdge) = enemies_forEach rnd (enemies g) g False
      in (g1\<lparr>enemies := es\<rparr>, hitEdge))"

definition edge_response :: "bool \<Rightarrow> Game \<Rightarrow> Game" where
  "edge_response hitEdge g =
     (if hitEdge
      then (let g1 = g\<lparr>enemyDir := enemyDir g * (- 1)\<rparr>
            in g1\<lparr>enemies := map (\<lambda>e. e\<lparr>posY := posY e + 20\<rparr>) (enemies g1)\<rparr>)
      else g)"

definition wave_completion :: "(nat \<Rightarrow> real) \<Rightarrow> Game \<Rightarrow> Game" where
  "wave_completion rnd g =
     (if enemies g = []
      then (let g1 = g\<lparr>level := level g + 1\<rparr>;
                g2 = g1\<lparr>score := score g1 + 1000\<rparr>
            in initEnemies rnd g2)
      else g)"

subsection \<open>\<^verbatim>\<open>animate\<close>: projectiles\<close>

definition Projectile_update :: "Projectile \<Rightarrow> Projectile" where
  "Projectile_update p =
     (let p1 = p\<lparr>posY := posY p + pspeed p\<rparr>
      in if posY p1 < - 20 \<or> posY p1 > GAME_HEIGHT + 20
         then p1\<lparr>markedForDeletion := True\<rparr> else p1)"

text \<open>\<open>spawnParticles rnd n x y col\<close> is the loop that pushes \<open>n\<close> new particles.\<close>

fun spawnParticles ::
  "(nat \<Rightarrow> real) \<Rightarrow> nat \<Rightarrow> real \<Rightarrow> real \<Rightarrow> string \<Rightarrow> Game \<Rightarrow> Game" where
  "spawnParticles rnd 0 x y col g = g"
| "spawnParticles rnd (Suc n) x y col g =
     (let (r1, g1) = random rnd g;
          (r2, g2) = random rnd g1
      in spawnParticles rnd n x y col
           (g2\<lparr>particles := particles g2 @ [new_Particle x y col r1 r2]\<rparr>))"

text \<open>
  \<open>hit_enemy\<close> is the body of the inner \<^verbatim>\<open>g.enemies.forEach\<close> for a player
  projectile \<open>p\<close>; \<open>hit_player\<close> is the \<^verbatim>\<open>else\<close> branch for an enemy projectile.
\<close>

definition hit_enemy ::
  "(nat \<Rightarrow> real) \<Rightarrow> Enemy \<Rightarrow> Projectile \<Rightarrow> Game \<Rightarrow> Enemy \<times> Projectile \<times> Game" where
  "hit_enemy rnd e p g =
     (if checkCollision p e
      then (let e1 = e\<lparr>markedForDeletion := True\<rparr>;
                p1 = p\<lparr>markedForDeletion := True\<rparr>;
                g1 = g\<lparr>score := score g + points e1\<rparr>;
                g2 = g1\<lparr>hudScore := score g1\<rparr>;
                g3 = playSound SndExplosion g2;
                g4 = (if hasPowerup e1
                      then g3\<lparr>powerups := powerups g3 @
                              [new_Powerup (posX e1 + 5) (posY e1 + 5)]\<rparr>
                      else g3);
                g5 = spawnParticles rnd 5 (posX e1) (posY e1) (color e1) g4
            in (e1, p1, g5))
      else (e, p, g))"

fun hit_enemies ::
  "(nat \<Rightarrow> real) \<Rightarrow> Enemy list \<Rightarrow> Projectile \<Rightarrow> Game \<Rightarrow> Enemy list \<times> Projectile \<times> Game" where
  "hit_enemies rnd [] p g = ([], p, g)"
| "hit_enemies rnd (e # es) p g =
     (let (e1, p1, g1) = hit_enemy rnd e p g;
          (es1, p2, g2) = hit_enemies rnd es p1 g1
      in (e1 # es1, p2, g2))"

definition hit_player :: "(nat \<Rightarrow> real) \<Rightarrow> Projectile \<Rightarrow> Game \<Rightarrow> Projectile \<times> Game" where
  "hit_player rnd p g =
     (if checkCollision p (player g)
      then (let p1 = p\<lparr>markedForDeletion := True\<rparr>;
                g1 = g\<lparr>lives := lives g - 1\<rparr>;
                g2 = g1\<lparr>hudLives := lives g1\<rparr>;
                g3 = playSound SndExplosion g2;
                g4 = spawnParticles rnd 10 (posX (player g3)) (posY (player g3)) COLORS_blue g3;
                g5 = (if lives g4 \<le> 0
                      then playSound SndGameover (g4\<lparr>gameState := GAMEOVER\<rparr>)
                      else g4)
            in (p1, g5))
      else (p, g))"

definition projectile_step ::
  "(nat \<Rightarrow> real) \<Rightarrow> Projectile \<Rightarrow> Game \<Rightarrow> Projectile \<times> Game" where
  "projectile_step rnd p g =
     (let p1 = Projectile_update p
      in if isPlayer p1
         then (let (es, p2, g1) = hit_enemies rnd (enemies g) p1 g
               in (p2, g1\<lparr>enemies := es\<rparr>))
         else hit_player rnd p1 g)"

fun projectiles_forEach ::
  "(nat \<Rightarrow> real) \<Rightarrow> Projectile list \<Rightarrow> Game \<Rightarrow> Projectile list \<times> Game" where
  "projectiles_forEach rnd [] g = ([], g)"
| "projectiles_forEach rnd (p # ps) g =
     (let (p1, g1) = projectile_step rnd p g;
          (ps1, g2) = projectiles_forEach rnd ps g1
      in (p1 # ps1, g2))"

definition projectiles_phase :: "(nat \<Rightarrow> real) \<Rightarrow> Game \<Rightarrow> Game" where
  "projectiles_phase rnd g =
     (let (ps, g1) = projectiles_forEach rnd (projectiles g) g
      in g1\<lparr>projectiles := ps\<rparr>)"

subsection \<open>\<^verbatim>\<open>animate\<close>: power-ups, particles and the sweep\<close>

definition Powerup_update :: "Powerup \<Rightarrow> Powerup" where
  "Powerup_update p =
     (let p1 = p\<lparr>posY := posY p + 3\<rparr>
      in if posY p1 > GAME_HEIGHT then p1\<lparr>markedForDeletion := True\<rparr> else p1)"

definition powerup_step :: "(nat \<Rightarrow> real) \<Rightarrow> Powerup \<Rightarrow> Game \<Rightarrow> Powerup \<times> Game" where
  "powerup_step rnd p g =
     (let p1 = Powerup_update p
      in if checkCollision p1 (player g)
         then (let p2 = p1\<lparr>markedForDeletion := True\<rparr>;
                   g1 = g\<lparr>lives := min (lives g + 1) 5\<rparr>;
                   g2 = g1\<lparr>hudLives := lives g1\<rparr>;
                   g3 = playSound SndPowerup g2;
                   g4 = spawnParticles rnd 8 (posX (player g3)) (posY (player g3))
                          COLORS_green g3
               in (p2, g4))
         else (p1, g))"

fun powerups_forEach ::
  "(nat \<Rightarrow> real) \<Rightarrow> Powerup list \<Rightarrow> Game \<Rightarrow> Powerup list \<times> Game" where
  "powerups_forEach rnd [] g = ([], g)"
| "powerups_forEach rnd (p # ps) g =
     (let (p1, g1) = powerup_step rnd p g;
          (ps1, g2) = powerups_forEach rnd ps g1
      in (p1 # ps1, g2))"

definition powerups_phase :: "(nat \<Rightarrow> real) \<Rightarrow> Game \<Rightarrow> Game" where
  "powerups_phase rnd g =
     (let (ps, g1) = powerups_forEach rnd (powerups g) g
      in g1\<lparr>powerups := ps\<rparr>)"

definition Particle_update :: "Particle \<Rightarrow> Particle" where
  "Particle_update p =
     (let p1 = p\<lparr>posX := posX p + vx p\<rparr>;
          p2 = p1\<lparr>posY := posY p1 + vy p1\<rparr>;
          p3 = p2\<lparr>life := life p2 - 0.04\<rparr>
      in if life p3 \<le> 0 then p3\<lparr>markedForDeletion := True\<rparr> else p3)"

definition sweep :: "Game \<Rightarrow> Game" where
  "sweep g =
     (let g1 = g\<lparr>enemies := filter (\<lambda>e. \<not> markedForDeletion e) (enemies g)\<rparr>;
          g2 = g1\<lparr>projectiles := filter (\<lambda>p. \<not> markedForDeletion p) (projectiles g1)\<rparr>;
          g3 = g2\<lparr>powerups := filter (\<lambda>p. \<not> markedForDeletion p) (powerups g2)\<rparr>;
          g4 = g3\<lparr>particles := map Particle_update (particles g3)\<rparr>
      in g4\<lparr>particles := filter (\<lambda>p. \<not> markedForDeletion p) (particles g4)\<rparr>)"

subsection \<open>\<^verbatim>\<open>animate\<close>: one frame, and the life cycle around it\<close>

text \<open>
  \<open>step\<close> is the body of \<^verbatim>\<open>if (gameState === GameState.PLAYING)\<close> in \<^verbatim>\<open>animate\<close>.
  The test reads the \<^verbatim>\<open>gameState\<close> of the render that created the callback, once, so
  a \<^verbatim>\<open>setGameState(GAMEOVER)\<close> in the middle of a frame does not stop that frame.
\<close>

definition step :: "(nat \<Rightarrow> real) \<Rightarrow> InputState \<Rightarrow> int \<Rightarrow> Game \<Rightarrow> Game" where
  "step rnd inp now g =
     (let g1 = Player_update inp now g;
          (g2, hitEdge) = enemies_phase rnd g1;
          g3 = edge_response hitEdge g2;
          g4 = wave_completion rnd g3;
          g5 = projectiles_phase rnd g4;
          g6 = powerups_phase rnd g5
      in sweep g6)"

definition animate :: "(nat \<Rightarrow> real) \<Rightarrow> InputState \<Rightarrow> int \<Rightarrow> Game \<Rightarrow> Game" where
  "animate rnd inp now g = (if gameState g = PLAYING then step rnd inp now g else g)"

text \<open>
  \<open>startGame\<close> is \<^verbatim>\<open>App.startGame\<close> followed by the effect of \<^verbatim>\<open>GameCanvas\<close> that
  runs when \<^verbatim>\<open>gameState\<close> has changed to \<^verbatim>\<open>PLAYING\<close>. The start and retry buttons
  and the Enter key reach it only while the state is not \<^verbatim>\<open>PLAYING\<close>.
\<close>

definition startGame :: "(nat \<Rightarrow> real) \<Rightarrow> Game \<Rightarrow> Game" where
  "startGame rnd g =
     (if gameState g = PLAYING then g
      else (let g1 = g\<lparr>gameState := PLAYING\<rparr>
            in if lives g1 \<le> 0 \<or> enemies g1 = [] then initGame rnd g1 else g1))"

datatype Event = Frame InputState int | Start

fun run :: "(nat \<Rightarrow> real) \<Rightarrow> Event list \<Rightarrow> Game \<Rightarrow> Game" where
  "run rnd [] g = g"
| "run rnd (Frame inp now # evs) g = run rnd evs (animate rnd inp now g)"
| "run rnd (Start # evs) g = run rnd evs (startGame rnd g)"

text \<open>The world of \<^verbatim>\<open>gameRef\<close> and of \<^verbatim>\<open>useState\<close> when the page has loaded.\<close>

definition initialGame :: Game where
  "initialGame =
     \<lparr>player = new_Player, projectiles = [], enemies = [], particles = [], powerups = [],
      score = 0, lives = 3, level = 1, enemyDir = 1,
      gameState = START, hudScore = 0, hudLives = 3, sounds = [], randCalls = 0\<rparr>"

subsection \<open>Predicates used in the properties\<close>

text \<open>
  \<open>hitsEdge g\<close>: some enemy of \<open>g\<close> is at or beyond a side margin once this frame's
  horizontal move has been added to its \<^verbatim>\<open>x\<close>. The enemy loop computes this flag.
\<close>

definition hitsEdge :: "Game \<Rightarrow> bool" where
  "hitsEdge g \<longleftrightarrow>
     (\<exists>e\<in>set (enemies g). posX e + enemy_dx g \<le> 10 \<or> posX e + enemy_dx g \<ge> GAME_WIDTH - 40)"

text \<open>
  \<open>lives_inv\<close>: the lives do not exceed 5, and when they are 0 or less the state is
  \<^verbatim>\<open>GAMEOVER\<close>.
\<close>

definition lives_inv :: "Game \<Rightarrow> bool" where
  "lives_inv g \<longleftrightarrow> lives g \<le> 5 \<and> (lives g \<le> 0 \<longrightarrow> gameState g = GAMEOVER)"

text \<open>
  \<open>gameover_link g g'\<close>: from \<open>g\<close> to \<open>g'\<close> sounds were only appended, and the state
  of \<open>g'\<close> is \<^verbatim>\<open>GAMEOVER\<close> if a gameover sound is among them and the state of \<open>g\<close>
  otherwise.
\<close>

definition gameover_link :: "Game \<Rightarrow> Game \<Rightarrow> bool" where
  "gameover_link g g' \<longleftrightarrow>
     (\<exists>ns. sounds g' = sounds g @ ns \<and>
           gameState g' = (if SndGameover \<in> set ns then GAMEOVER else gameState g))"

subsection \<open>Concrete inputs and worlds\<close>

text \<open>Input snapshots and worlds at which the properties below are evaluated.\<close>

definition holdLeft :: InputState where
  "holdLeft = \<lparr>left = True, right = False, shoot = False\<rparr>"

definition holdShoot :: InputState where
  "holdShoot = \<lparr>left = False, right = False, shoot = True\<rparr>"

definition noInput :: InputState where
  "noInput = \<lparr>left = False, right = False, shoot = False\<rparr>"

text \<open>The world of a fresh player whose last shot was at clock value 1000.\<close>

definition justFired :: Game where
  "justFired = initialGame\<lparr>player := new_Player\<lparr>lastShot := 1000\<rparr>\<rparr>"

text \<open>A source of random numbers that always returns one half.\<close>

definition rndHalf :: "nat \<Rightarrow> real" where
  "rndHalf n = 1 / 2"



text \<open>
  A world with two enemies of kind 2 left and a player projectile that overlaps the first
  of them after its move.
\<close>

definition gridShot :: Game where
  "gridShot =
     initialGame\<lparr>enemies := [new_Enemy 300 100 2 False, new_Enemy 350 100 2 False],
                  projectiles := [new_Projectile 308 120 (- 12) COLORS_yellow True],
                  score := 740, hudScore := 740, gameState := PLAYING\<rparr>"

text \<open>
  A world in which the first of two enemies is 1.5 pixels left of the right margin and
  the enemies move right, by 2.26 pixels a frame at this score.
\<close>

definition atRightMargin :: Game where
  "atRightMargin =
     initialGame\<lparr>enemies := [new_Enemy 758.5 100 2 False, new_Enemy 300 150 3 False],
                  score := 760, hudScore := 760, gameState := PLAYING\<rparr>"



text \<open>
  A world with one life left and two enemy projectiles, 15 pixels apart, that both
  overlap the player after their next move.
\<close>

definition lastLife :: Game where
  "lastLife =
     initialGame\<lparr>enemies := [new_Enemy 300 50 1 False],
                  projectiles := [new_Projectile 385 525 5 COLORS_red False,
                                  new_Projectile 400 525 5 COLORS_red False],
                  score := 750, hudScore := 750,
                  lives := 1, hudLives := 1, gameState := PLAYING\<rparr>"

text \<open>
  A world in which the last two enemies have come down to the player's row
  (\<open>520 + 35 \<ge> 540\<close>).
\<close>

definition rowReached :: Game where
  "rowReached =
     initialGame\<lparr>enemies := [new_Enemy 300 520 3 False, new_Enemy 350 520 3 False],
                  score := 780, hudScore := 780, gameState := PLAYING\<rparr>"

section \<open>Properties\<close>

subsection \<open>Auxiliary facts\<close>

lemma checkCollision_mark1 [simp]:
  "checkCollision (p\<lparr>markedForDeletion := b\<rparr>) e = checkCollision p e"
  by (simp add: checkCollision_def)

lemma checkCollision_mark2 [simp]:
  "checkCollision p (e\<lparr>markedForDeletion := b\<rparr>) = checkCollision p e"
  by (simp add: checkCollision_def)

text \<open>A property of the world that every pass of a loop body keeps is kept by the loop.\<close>

lemma spawnParticles_preserves:
  assumes "\<And>g ps n. P g \<Longrightarrow> P (g\<lparr>randCalls := n, particles := ps\<rparr>)"
  shows "P g \<Longrightarrow> P (spawnParticles rnd n x y col g)"
proof (induction n arbitrary: g)
  case 0
  then show ?case by simp
next
  case (Suc n)
  have "P (g\<lparr>randCalls := Suc (Suc (randCalls g)),
            particles := particles g @
              [new_Particle x y col (rnd (randCalls g)) (rnd (Suc (randCalls g)))]\<rparr>)"
    using Suc.prems assms by blast
  then show ?case
    using Suc.IH by (simp add: random_def)
qed

lemma enemies_forEach_preserves:
  assumes "\<And>e g h e' g' h'. enemy_step rnd e g h = (e', g', h') \<Longrightarrow> P g \<Longrightarrow> P g'"
  shows "enemies_forEach rnd es g h = (es', g', h') \<Longrightarrow> P g \<Longrightarrow> P g'"
proof (induction es arbitrary: g h es' g' h')
  case Nil
  then show ?case by simp
next
  case (Cons e es)
  then show ?case
    using assms by (auto split: prod.splits)
qed

lemma hit_enemies_preserves:
  assumes "\<And>e p g e' p' g'. hit_enemy rnd e p g = (e', p', g') \<Longrightarrow> P g \<Longrightarrow> P g'"
  shows "hit_enemies rnd es p g = (es', p', g') \<Longrightarrow> P g \<Longrightarrow> P g'"
proof (induction es arbitrary: p g es' p' g')
  case Nil
  then show ?case by simp
next
  case (Cons e es)
  then show ?case
    using assms by (auto split: prod.splits)
qed

lemma projectiles_forEach_preserves:
  assumes "\<And>p g p' g'. projectile_step rnd p g = (p', g') \<Longrightarrow> P g \<Longrightarrow> P g'"
  shows "projectiles_forEach rnd ps g = (ps', g') \<Longrightarrow> P g \<Longrightarrow> P g'"
proof (induction ps arbitrary: g ps' g')
  case Nil
  then show ?case by simp
next
  case (Cons p ps)
  then show ?case
    using assms by (auto split: prod.splits)
qed

lemma powerups_forEach_preserves:
  assumes "\<And>p g p' g'. powerup_step rnd p g = (p', g') \<Longrightarrow> P g \<Longrightarrow> P g'"
  shows "powerups_forEach rnd ps g = (ps', g') \<Longrightarrow> P g \<Longrightarrow> P g'"
proof (induction ps arbitrary: g ps' g')
  case Nil
  then show ?case by simp
next
  case (Cons p ps)
  then show ?case
    using assms by (auto split: prod.splits)
qed

lemma lastShot_Player_move [simp]: "lastShot (Player_move inp p) = lastShot p"
  by (simp add: Player_move_def Let_def)

lemma Player_update_holdLeft:
  "Player_update holdLeft now g =
     g\<lparr>player := (if posX (player g) > 0
                   then (player g)\<lparr>posX := posX (player g) - speed (player g)\<rparr>
                   else player g)\<rparr>"
  by (simp add: Player_update_def Player_move_def holdLeft_def GAME_WIDTH_def Let_def)

text \<open>Holding left from the start position moves the ship 8 pixels per frame, 48 times.\<close>

lemma holdLeft_frames:
  "n \<le> 48 \<Longrightarrow>
     posX (player ((Player_update holdLeft now ^^ n) initialGame)) = 380 - 8 * real n \<and>
     speed (player ((Player_update holdLeft now ^^ n) initialGame)) = 8"
proof (induction n)
  case 0
  show ?case
    by (simp add: initialGame_def new_Player_def GAME_WIDTH_def)
next
  case (Suc n)
  define G where "G = (Player_update holdLeft now ^^ n) initialGame"
  from Suc have ih: "posX (player G) = 380 - 8 * real n" "speed (player G) = 8"
    and n: "n \<le> 47" by (simp_all add: G_def)
  from n have pos: "8 * real n < 380" by simp
  have "(Player_update holdLeft now ^^ Suc n) initialGame = Player_update holdLeft now G"
    by (simp only: funpow.simps o_apply G_def)
  moreover have "posX (player (Player_update holdLeft now G)) = 380 - 8 * real (Suc n)"
    using ih pos unfolding Player_update_holdLeft by simp
  moreover have "speed (player (Player_update holdLeft now G)) = 8"
    using ih unfolding Player_update_holdLeft by simp
  ultimately show ?case by simp
qed

subsection \<open>The player\<close>

text \<open>
  Claim C2 says that after \<^verbatim>\<open>Player.update\<close> the player's \<open>x\<close> lies in
  \<open>[0, GAME_WIDTH - width]\<close>. The guards of \<^verbatim>\<open>Player.update\<close> test the position
  before the move, and the start position 380 is not a multiple of the speed 8: holding
  left for 48 frames from the initial world moves the ship from 380 to 4 and then to \<open>-4\<close>,
  outside the viewport.
\<close>

theorem Player_update_leaves_viewport:
  "posX (player ((Player_update holdLeft 0 ^^ 47) initialGame)) = 4 \<and>
   posX (player ((Player_update holdLeft 0 ^^ 48) initialGame)) = - 4 \<and>
   \<not> (0 \<le> posX (player ((Player_update holdLeft 0 ^^ 48) initialGame)))"
  using holdLeft_frames [of 48 0] holdLeft_frames [of 47 0] by simp

text \<open>
  Claim C3, as amended: with \<^verbatim>\<open>input.shoot\<close> set, the player fires if and only if
  strictly more than 200 ms have passed since the last shot (\<^verbatim>\<open>now - lastShot > 200\<close>).
  A shot appends exactly two player projectiles, one at each upper corner of the ship at
  its position after this frame's move, sets \<^verbatim>\<open>lastShot\<close> to \<open>now\<close> and plays the
  shoot sound once; otherwise no projectile is added, \<^verbatim>\<open>lastShot\<close> is unchanged and no
  sound is played.
\<close>

theorem Player_update_fire:
  "projectiles (Player_update inp now g) =
     projectiles g @
       (if shoot inp \<and> now - lastShot (player g) > 200
        then [new_Projectile (posX (Player_move inp (player g)))
                (posY (Player_move inp (player g))) (- 12) COLORS_yellow True,
              new_Projectile
                (posX (Player_move inp (player g)) + width (Player_move inp (player g)))
                (posY (Player_move inp (player g))) (- 12) COLORS_yellow True]
        else []) \<and>
   lastShot (player (Player_update inp now g)) =
     (if shoot inp \<and> now - lastShot (player g) > 200 then now else lastShot (player g)) \<and>
   sounds (Player_update inp now g) =
     sounds g @ (if shoot inp \<and> now - lastShot (player g) > 200 then [SndShoot] else [])"
  by (simp add: Player_update_def fireProjectile_def playSound_def Let_def)

text \<open>
  Witness for C3: 201 ms after the last shot the player fires two projectiles, at
  \<open>x = 380\<close> and \<open>x = 420\<close>.
\<close>

theorem Player_update_fire_witness:
  "shoot holdShoot \<and> 1201 - lastShot (player justFired) > 200 \<and>
   projectiles (Player_update holdShoot 1201 justFired) =
     [new_Projectile 380 540 (- 12) COLORS_yellow True,
      new_Projectile 420 540 (- 12) COLORS_yellow True] \<and>
   lastShot (player (Player_update holdShoot 1201 justFired)) = 1201"
  using Player_update_fire [of holdShoot 1201 justFired]
  by (simp add: holdShoot_def justFired_def initialGame_def new_Player_def Player_move_def
      GAME_WIDTH_def GAME_HEIGHT_def)

text \<open>
  Counterexample to C3 as stated: exactly 200 ms after the last shot, with
  \<^verbatim>\<open>input.shoot\<close> set, no projectile is produced.
\<close>

theorem fire_at_200ms_counterexample:
  "shoot holdShoot \<and> 1200 - lastShot (player justFired) \<ge> 200 \<and>
   projectiles (Player_update holdShoot 1200 justFired) = projectiles justFired"
  by (simp add: Player_update_def Player_move_def holdShoot_def justFired_def
      initialGame_def new_Player_def GAME_WIDTH_def Let_def)

subsection \<open>The collision test\<close>

text \<open>
  Claim C9. The overlap test \<^verbatim>\<open>checkCollision\<close> is symmetric: for all rectangles
  \<open>a\<close> and \<open>b\<close>, of any position and size and of any two entity classes, testing \<open>a\<close>
  against \<open>b\<close> gives the same answer as testing \<open>b\<close> against \<open>a\<close>.
\<close>

theorem checkCollision_symmetric:
  "checkCollision a b = checkCollision b a"
  unfolding checkCollision_def by auto

text \<open>
  For rectangles of positive size the test says that the half-open boxes
  \<open>[x, x + width) \<times> [y, y + height)\<close> have a point in common.
\<close>

lemma checkCollision_half_open:
  assumes "0 < width a" and "0 < height a" and "0 < width b" and "0 < height b"
  shows "checkCollision a b \<longleftrightarrow>
     (\<exists>u v. posX a \<le> u \<and> u < posX a + width a \<and> posX b \<le> u \<and> u < posX b + width b \<and>
            posY a \<le> v \<and> v < posY a + height a \<and> posY b \<le> v \<and> v < posY b + height b)"
proof
  assume c: "checkCollision a b"
  define u where "u = max (posX a) (posX b)"
  define v where "v = max (posY a) (posY b)"
  from c assms have "posX a \<le> u \<and> u < posX a + width a \<and> posX b \<le> u \<and> u < posX b + width b"
    by (auto simp: checkCollision_def u_def max_def)
  moreover from c assms
  have "posY a \<le> v \<and> v < posY a + height a \<and> posY b \<le> v \<and> v < posY b + height b"
    by (auto simp: checkCollision_def v_def max_def)
  ultimately show "\<exists>u v. posX a \<le> u \<and> u < posX a + width a \<and> posX b \<le> u \<and>
      u < posX b + width b \<and> posY a \<le> v \<and> v < posY a + height a \<and> posY b \<le> v \<and>
      v < posY b + height b"
    by blast
next
  assume "\<exists>u v. posX a \<le> u \<and> u < posX a + width a \<and> posX b \<le> u \<and>
      u < posX b + width b \<and> posY a \<le> v \<and> v < posY a + height a \<and> posY b \<le> v \<and>
      v < posY b + height b"
  then show "checkCollision a b"
    by (auto simp: checkCollision_def)
qed

subsection \<open>What the loop bodies and phases change\<close>

lemma spawnParticles_fields [simp]:
  "score (spawnParticles rnd n x y col g) = score g"
  "lives (spawnParticles rnd n x y col g) = lives g"
  "level (spawnParticles rnd n x y col g) = level g"
  "enemyDir (spawnParticles rnd n x y col g) = enemyDir g"
  "gameState (spawnParticles rnd n x y col g) = gameState g"
  "sounds (spawnParticles rnd n x y col g) = sounds g"
  "enemies (spawnParticles rnd n x y col g) = enemies g"
  "player (spawnParticles rnd n x y col g) = player g"
  "projectiles (spawnParticles rnd n x y col g) = projectiles g"
  "powerups (spawnParticles rnd n x y col g) = powerups g"
  by (rule spawnParticles_preserves [where P = "\<lambda>g'. score g' = score g"], simp_all,
      rule spawnParticles_preserves [where P = "\<lambda>g'. lives g' = lives g"], simp_all,
      rule spawnParticles_preserves [where P = "\<lambda>g'. level g' = level g"], simp_all,
      rule spawnParticles_preserves [where P = "\<lambda>g'. enemyDir g' = enemyDir g"], simp_all,
      rule spawnParticles_preserves [where P = "\<lambda>g'. gameState g' = gameState g"], simp_all,
      rule spawnParticles_preserves [where P = "\<lambda>g'. sounds g' = sounds g"], simp_all,
      rule spawnParticles_preserves [where P = "\<lambda>g'. enemies g' = enemies g"], simp_all,
      rule spawnParticles_preserves [where P = "\<lambda>g'. player g' = player g"], simp_all,
      rule spawnParticles_preserves [where P = "\<lambda>g'. projectiles g' = projectiles g"], simp_all,
      rule spawnParticles_preserves [where P = "\<lambda>g'. powerups g' = powerups g"], simp_all)

lemma enemy_step_result:
  assumes "enemy_step rnd e g h = (e', g', h')"
  shows "e' = e\<lparr>posX := posX e + enemy_dx g\<rparr>"
    and "h' = (h \<or> posX e + enemy_dx g \<le> 10 \<or> posX e + enemy_dx g \<ge> GAME_WIDTH - 40)"
    and "score g' = score g" and "level g' = level g" and "enemyDir g' = enemyDir g"
    and "enemies g' = enemies g" and "player g' = player g" and "powerups g' = powerups g"
    and "enemy_dx g' = enemy_dx g"
  using assms
  by (auto simp: enemy_step_def random_def playSound_def enemy_dx_def Let_def split: if_splits)

lemma hit_enemy_result:
  assumes "hit_enemy rnd e p g = (e', p', g')"
  shows "e' = (if checkCollision p e then e\<lparr>markedForDeletion := True\<rparr> else e)"
    and "p' = (if checkCollision p e then p\<lparr>markedForDeletion := True\<rparr> else p)"
    and "score g' = score g + (if checkCollision p e then points e else 0)"
    and "lives g' = lives g" and "level g' = level g" and "enemyDir g' = enemyDir g"
    and "gameState g' = gameState g" and "player g' = player g"
    and "projectiles g' = projectiles g"
    and "sounds g' = sounds g @ (if checkCollision p e then [SndExplosion] else [])"
  using assms
  by (auto simp: hit_enemy_def playSound_def Let_def split: if_splits)

lemma hit_player_result:
  assumes "hit_player rnd p g = (p', g')"
  shows "score g' = score g" and "level g' = level g" and "enemyDir g' = enemyDir g"
    and "enemies g' = enemies g" and "player g' = player g"
    and "lives g' = (if checkCollision p (player g) then lives g - 1 else lives g)"
  using assms
  by (auto simp: hit_player_def playSound_def Let_def split: if_splits)

lemma powerup_step_result:
  assumes "powerup_step rnd p g = (p', g')"
  shows "score g' = score g" and "level g' = level g" and "enemyDir g' = enemyDir g"
    and "enemies g' = enemies g" and "player g' = player g"
    and "projectiles g' = projectiles g"
  using assms
  by (auto simp: powerup_step_def playSound_def Let_def split: if_splits)


lemma enemies_forEach_result:
  "enemies_forEach rnd es g h = (es', g', h') \<Longrightarrow>
     es' = map (\<lambda>e. e\<lparr>posX := posX e + enemy_dx g\<rparr>) es \<and>
     h' = (h \<or> (\<exists>e\<in>set es. posX e + enemy_dx g \<le> 10 \<or>
                              posX e + enemy_dx g \<ge> GAME_WIDTH - 40)) \<and>
     score g' = score g \<and> level g' = level g \<and> enemyDir g' = enemyDir g \<and>
     enemies g' = enemies g \<and> player g' = player g \<and> powerups g' = powerups g"
proof (induction es arbitrary: g h es' g' h')
  case Nil
  then show ?case by simp
next
  case (Cons e es)
  obtain e1 g1 h1 where st: "enemy_step rnd e g h = (e1, g1, h1)"
    by (cases "enemy_step rnd e g h") auto
  obtain es1 g2 h2 where rest: "enemies_forEach rnd es g1 h1 = (es1, g2, h2)"
    by (cases "enemies_forEach rnd es g1 h1") auto
  from Cons.prems st rest have eq: "es' = e1 # es1" "g' = g2" "h' = h2"
    by simp_all
  note r = enemy_step_result [OF st]
  from Cons.IH [OF rest] r eq show ?case
    by auto
qed

lemma hit_enemies_result:
  "hit_enemies rnd es p g = (es', p', g') \<Longrightarrow>
     es' = map (\<lambda>e. if checkCollision p e then e\<lparr>markedForDeletion := True\<rparr> else e) es \<and>
     p' = (if \<exists>e\<in>set es. checkCollision p e then p\<lparr>markedForDeletion := True\<rparr> else p) \<and>
     score g' = score g + sum_list (map points (filter (checkCollision p) es)) \<and>
     lives g' = lives g \<and> level g' = level g \<and> enemyDir g' = enemyDir g \<and>
     gameState g' = gameState g \<and> player g' = player g \<and> projectiles g' = projectiles g"
proof (induction es arbitrary: p g es' p' g')
  case Nil
  then show ?case by simp
next
  case (Cons e es)
  obtain e1 p1 g1 where st: "hit_enemy rnd e p g = (e1, p1, g1)"
    by (cases "hit_enemy rnd e p g") auto
  obtain es1 p2 g2 where rest: "hit_enemies rnd es p1 g1 = (es1, p2, g2)"
    by (cases "hit_enemies rnd es p1 g1") auto
  from Cons.prems st rest have eq: "es' = e1 # es1" "p' = p2" "g' = g2"
    by simp_all
  note r = hit_enemy_result [OF st]
  show ?case
  proof (cases "checkCollision p e")
    case True
    with r have "p1 = p\<lparr>markedForDeletion := True\<rparr>" by simp
    with Cons.IH [OF rest] r eq True show ?thesis by simp
  next
    case False
    with r have "p1 = p" by simp
    with Cons.IH [OF rest] r eq False show ?thesis by simp
  qed
qed


lemma isPlayer_Projectile_update [simp]: "isPlayer (Projectile_update p) = isPlayer p"
  by (simp add: Projectile_update_def Let_def)

lemma projectile_step_player:
  assumes "isPlayer p"
  shows "projectile_step rnd p g =
           (case hit_enemies rnd (enemies g) (Projectile_update p) g of
              (es, p2, g1) \<Rightarrow> (p2, g1\<lparr>enemies := es\<rparr>))"
  using assms by (simp add: projectile_step_def Let_def)

lemma projectile_step_enemy:
  assumes "\<not> isPlayer p"
  shows "projectile_step rnd p g = hit_player rnd (Projectile_update p) g"
  using assms by (simp add: projectile_step_def Let_def)


lemma sum_list_points_nonneg:
  "\<forall>e\<in>set es. 0 \<le> points e \<Longrightarrow> 0 \<le> sum_list (map points (filter Q es))"
  by (induction es) auto

lemma projectile_step_result:
  assumes "projectile_step rnd p g = (p', g')"
  shows "level g' = level g" and "enemyDir g' = enemyDir g" and "player g' = player g"
    and "map (\<lambda>e. e\<lparr>markedForDeletion := True\<rparr>) (enemies g') =
         map (\<lambda>e. e\<lparr>markedForDeletion := True\<rparr>) (enemies g)"
    and "map points (enemies g') = map points (enemies g)"
    and "(\<forall>e\<in>set (enemies g). 0 \<le> points e) \<Longrightarrow> score g \<le> score g'"
proof -
  have "level g' = level g \<and> enemyDir g' = enemyDir g \<and> player g' = player g \<and>
        map (\<lambda>e. e\<lparr>markedForDeletion := True\<rparr>) (enemies g') =
         map (\<lambda>e. e\<lparr>markedForDeletion := True\<rparr>) (enemies g) \<and>
        map points (enemies g') = map points (enemies g) \<and>
        ((\<forall>e\<in>set (enemies g). 0 \<le> points e) \<longrightarrow> score g \<le> score g')"
  proof (cases "isPlayer p")
    case True
    obtain es p2 g1 where h: "hit_enemies rnd (enemies g) (Projectile_update p) g = (es, p2, g1)"
      by (cases "hit_enemies rnd (enemies g) (Projectile_update p) g") auto
    with assms True have g': "g' = g1\<lparr>enemies := es\<rparr>"
      by (simp add: projectile_step_player)
    from hit_enemies_result [OF h] g' sum_list_points_nonneg [of "enemies g"]
    show ?thesis
      by (auto simp: comp_def)
  next
    case False
    with assms have "hit_player rnd (Projectile_update p) g = (p', g')"
      by (simp add: projectile_step_enemy)
    from hit_player_result [OF this] show ?thesis by simp
  qed
  then show "level g' = level g" and "enemyDir g' = enemyDir g" and "player g' = player g"
    and "map (\<lambda>e. e\<lparr>markedForDeletion := True\<rparr>) (enemies g') =
         map (\<lambda>e. e\<lparr>markedForDeletion := True\<rparr>) (enemies g)"
    and "map points (enemies g') = map points (enemies g)"
    and "(\<forall>e\<in>set (enemies g). 0 \<le> points e) \<Longrightarrow> score g \<le> score g'"
    by blast+
qed


lemma points_nonneg_cong:
  assumes "map points es' = map points es"
  shows "(\<forall>e\<in>set es'. 0 \<le> points e) = (\<forall>e\<in>set es. (0::int) \<le> points e)"
proof -
  have "(\<forall>e\<in>set es'. 0 \<le> points e) = (\<forall>x\<in>set (map points es'). 0 \<le> x)" by simp
  also have "\<dots> = (\<forall>x\<in>set (map points es). 0 \<le> x)" by (simp only: assms)
  also have "\<dots> = (\<forall>e\<in>set es. 0 \<le> points e)" by simp
  finally show ?thesis .
qed

lemma Player_update_frame [simp]:
  "score (Player_update inp now g) = score g"
  "lives (Player_update inp now g) = lives g"
  "level (Player_update inp now g) = level g"
  "enemyDir (Player_update inp now g) = enemyDir g"
  "enemies (Player_update inp now g) = enemies g"
  "powerups (Player_update inp now g) = powerups g"
  "gameState (Player_update inp now g) = gameState g"
  "enemy_dx (Player_update inp now g) = enemy_dx g"
  by (simp_all add: Player_update_def fireProjectile_def playSound_def enemy_dx_def Let_def)

lemma enemies_phase_result:
  "enemies (fst (enemies_phase rnd g)) =
     map (\<lambda>e. e\<lparr>posX := posX e + enemy_dx g\<rparr>) (enemies g)"
  "snd (enemies_phase rnd g) = hitsEdge g"
  "score (fst (enemies_phase rnd g)) = score g"
  "level (fst (enemies_phase rnd g)) = level g"
  "enemyDir (fst (enemies_phase rnd g)) = enemyDir g"
  "player (fst (enemies_phase rnd g)) = player g"
  "powerups (fst (enemies_phase rnd g)) = powerups g"
proof -
  obtain es g1 h where l: "enemies_forEach rnd (enemies g) g False = (es, g1, h)"
    by (cases "enemies_forEach rnd (enemies g) g False") auto
  then have ph: "enemies_phase rnd g = (g1\<lparr>enemies := es\<rparr>, h)"
    by (simp add: enemies_phase_def)
  note r = enemies_forEach_result [OF l]
  from r ph show "enemies (fst (enemies_phase rnd g)) =
     map (\<lambda>e. e\<lparr>posX := posX e + enemy_dx g\<rparr>) (enemies g)" by simp
  from r ph show "snd (enemies_phase rnd g) = hitsEdge g" by (simp add: hitsEdge_def)
  from r ph show "score (fst (enemies_phase rnd g)) = score g" by simp
  from r ph show "level (fst (enemies_phase rnd g)) = level g" by simp
  from r ph show "enemyDir (fst (enemies_phase rnd g)) = enemyDir g" by simp
  from r ph show "player (fst (enemies_phase rnd g)) = player g" by simp
  from r ph show "powerups (fst (enemies_phase rnd g)) = powerups g" by simp
qed

lemma edge_response_frame [simp]:
  "score (edge_response h g) = score g"
  "lives (edge_response h g) = lives g"
  "level (edge_response h g) = level g"
  "gameState (edge_response h g) = gameState g"
  "sounds (edge_response h g) = sounds g"
  "player (edge_response h g) = player g"
  "enemyDir (edge_response h g) = (if h then - enemyDir g else enemyDir g)"
  "enemies (edge_response h g) =
     (if h then map (\<lambda>e. e\<lparr>posY := posY e + 20\<rparr>) (enemies g) else enemies g)"
  by (simp_all add: edge_response_def Let_def)

lemma initEnemies_frame [simp]:
  "score (initEnemies rnd g) = score g"
  "lives (initEnemies rnd g) = lives g"
  "level (initEnemies rnd g) = level g"
  "enemyDir (initEnemies rnd g) = enemyDir g"
  "gameState (initEnemies rnd g) = gameState g"
  "sounds (initEnemies rnd g) = sounds g"
  "player (initEnemies rnd g) = player g"
  "projectiles (initEnemies rnd g) = projectiles g"
  "powerups (initEnemies rnd g) = powerups g"
  by (simp_all add: initEnemies_def random_def Let_def)

lemma initEnemies_wave:
  "length (enemies (initEnemies rnd g)) = 32"
  "\<forall>e\<in>set (enemies (initEnemies rnd g)). 0 \<le> points e"
  by (auto simp: initEnemies_def random_def Let_def new_Enemy_def length_concat comp_def
      sum_list_triv)


subsection \<open>The later phases of a frame\<close>

lemma projectiles_forEach_result:
  assumes "projectiles_forEach rnd ps g = (ps', g')"
  shows "level g' = level g \<and> enemyDir g' = enemyDir g \<and> player g' = player g \<and>
     map (\<lambda>e. e\<lparr>markedForDeletion := True\<rparr>) (enemies g') =
       map (\<lambda>e. e\<lparr>markedForDeletion := True\<rparr>) (enemies g) \<and>
     map points (enemies g') = map points (enemies g) \<and>
     ((\<forall>e\<in>set (enemies g). 0 \<le> points e) \<longrightarrow> score g \<le> score g')"
proof (rule projectiles_forEach_preserves [OF _ assms, where P = "\<lambda>g'.
     level g' = level g \<and> enemyDir g' = enemyDir g \<and> player g' = player g \<and>
     map (\<lambda>e. e\<lparr>markedForDeletion := True\<rparr>) (enemies g') =
       map (\<lambda>e. e\<lparr>markedForDeletion := True\<rparr>) (enemies g) \<and>
     map points (enemies g') = map points (enemies g) \<and>
     ((\<forall>e\<in>set (enemies g). 0 \<le> points e) \<longrightarrow> score g \<le> score g')"])
  fix p ga p' ga'
  assume st: "projectile_step rnd p ga = (p', ga')"
    and P: "level ga = level g \<and> enemyDir ga = enemyDir g \<and> player ga = player g \<and>
     map (\<lambda>e. e\<lparr>markedForDeletion := True\<rparr>) (enemies ga) =
       map (\<lambda>e. e\<lparr>markedForDeletion := True\<rparr>) (enemies g) \<and>
     map points (enemies ga) = map points (enemies g) \<and>
     ((\<forall>e\<in>set (enemies g). 0 \<le> points e) \<longrightarrow> score g \<le> score ga)"
  note r = projectile_step_result [OF st]
  from P have "(\<forall>e\<in>set (enemies ga). 0 \<le> points e) = (\<forall>e\<in>set (enemies g). 0 \<le> points e)"
    by (intro points_nonneg_cong) simp
  with r(6) P have "(\<forall>e\<in>set (enemies g). 0 \<le> points e) \<longrightarrow> score g \<le> score ga'"
    by auto
  with r P show "level ga' = level g \<and> enemyDir ga' = enemyDir g \<and> player ga' = player g \<and>
     map (\<lambda>e. e\<lparr>markedForDeletion := True\<rparr>) (enemies ga') =
       map (\<lambda>e. e\<lparr>markedForDeletion := True\<rparr>) (enemies g) \<and>
     map points (enemies ga') = map points (enemies g) \<and>
     ((\<forall>e\<in>set (enemies g). 0 \<le> points e) \<longrightarrow> score g \<le> score ga')"
    by simp
qed simp

lemma projectiles_phase_result:
  "level (projectiles_phase rnd g) = level g"
  "enemyDir (projectiles_phase rnd g) = enemyDir g"
  "player (projectiles_phase rnd g) = player g"
  "map (\<lambda>e. e\<lparr>markedForDeletion := True\<rparr>) (enemies (projectiles_phase rnd g)) =
     map (\<lambda>e. e\<lparr>markedForDeletion := True\<rparr>) (enemies g)"
  "map points (enemies (projectiles_phase rnd g)) = map points (enemies g)"
  "(\<forall>e\<in>set (enemies g). 0 \<le> points e) \<Longrightarrow> score g \<le> score (projectiles_phase rnd g)"
proof -
  obtain ps g1 where l: "projectiles_forEach rnd (projectiles g) g = (ps, g1)"
    by (cases "projectiles_forEach rnd (projectiles g) g") auto
  then have ph: "projectiles_phase rnd g = g1\<lparr>projectiles := ps\<rparr>"
    by (simp add: projectiles_phase_def)
  note r = projectiles_forEach_result [OF l]
  from r ph show "level (projectiles_phase rnd g) = level g" by simp
  from r ph show "enemyDir (projectiles_phase rnd g) = enemyDir g" by simp
  from r ph show "player (projectiles_phase rnd g) = player g" by simp
  from r ph show "map (\<lambda>e. e\<lparr>markedForDeletion := True\<rparr>) (enemies (projectiles_phase rnd g)) =
     map (\<lambda>e. e\<lparr>markedForDeletion := True\<rparr>) (enemies g)" by simp
  from r ph show "map points (enemies (projectiles_phase rnd g)) = map points (enemies g)" by simp
  from r ph show "(\<forall>e\<in>set (enemies g). 0 \<le> points e) \<Longrightarrow> score g \<le> score (projectiles_phase rnd g)"
    by simp
qed

lemma powerups_forEach_result:
  assumes "powerups_forEach rnd ps g = (ps', g')"
  shows "score g' = score g \<and> level g' = level g \<and> enemyDir g' = enemyDir g \<and>
         enemies g' = enemies g \<and> player g' = player g \<and> projectiles g' = projectiles g"
proof (rule powerups_forEach_preserves [OF _ assms, where P = "\<lambda>g'.
         score g' = score g \<and> level g' = level g \<and> enemyDir g' = enemyDir g \<and>
         enemies g' = enemies g \<and> player g' = player g \<and> projectiles g' = projectiles g"])
  fix p ga p' ga'
  assume st: "powerup_step rnd p ga = (p', ga')"
    and P: "score ga = score g \<and> level ga = level g \<and> enemyDir ga = enemyDir g \<and>
         enemies ga = enemies g \<and> player ga = player g \<and> projectiles ga = projectiles g"
  from powerup_step_result [OF st] P
  show "score ga' = score g \<and> level ga' = level g \<and> enemyDir ga' = enemyDir g \<and>
         enemies ga' = enemies g \<and> player ga' = player g \<and> projectiles ga' = projectiles g"
    by simp
qed simp

lemma powerups_phase_frame [simp]:
  "score (powerups_phase rnd g) = score g"
  "level (powerups_phase rnd g) = level g"
  "enemyDir (powerups_phase rnd g) = enemyDir g"
  "enemies (powerups_phase rnd g) = enemies g"
  "player (powerups_phase rnd g) = player g"
  "projectiles (powerups_phase rnd g) = projectiles g"
proof -
  obtain ps g1 where l: "powerups_forEach rnd (powerups g) g = (ps, g1)"
    by (cases "powerups_forEach rnd (powerups g) g") auto
  then have ph: "powerups_phase rnd g = g1\<lparr>powerups := ps\<rparr>"
    by (simp add: powerups_phase_def)
  note r = powerups_forEach_result [OF l]
  from r ph show "score (powerups_phase rnd g) = score g" by simp
  from r ph show "level (powerups_phase rnd g) = level g" by simp
  from r ph show "enemyDir (powerups_phase rnd g) = enemyDir g" by simp
  from r ph show "enemies (powerups_phase rnd g) = enemies g" by simp
  from r ph show "player (powerups_phase rnd g) = player g" by simp
  from r ph show "projectiles (powerups_phase rnd g) = projectiles g" by simp
qed

lemma sweep_frame [simp]:
  "score (sweep g) = score g"
  "lives (sweep g) = lives g"
  "level (sweep g) = level g"
  "enemyDir (sweep g) = enemyDir g"
  "gameState (sweep g) = gameState g"
  "sounds (sweep g) = sounds g"
  "player (sweep g) = player g"
  "enemies (sweep g) = filter (\<lambda>e. \<not> markedForDeletion e) (enemies g)"
  "projectiles (sweep g) = filter (\<lambda>p. \<not> markedForDeletion p) (projectiles g)"
  "powerups (sweep g) = filter (\<lambda>p. \<not> markedForDeletion p) (powerups g)"
  "particles (sweep g) =
     filter (\<lambda>p. \<not> markedForDeletion p) (map Particle_update (particles g))"
  by (simp_all add: sweep_def Let_def)

lemma wave_completion_frame [simp]:
  "lives (wave_completion rnd g) = lives g"
  "enemyDir (wave_completion rnd g) = enemyDir g"
  "gameState (wave_completion rnd g) = gameState g"
  "sounds (wave_completion rnd g) = sounds g"
  "player (wave_completion rnd g) = player g"
  "level (wave_completion rnd g) = (if enemies g = [] then level g + 1 else level g)"
  "score (wave_completion rnd g) = (if enemies g = [] then score g + 1000 else score g)"
  by (simp_all add: wave_completion_def Let_def)

lemma step_unfold:
  "step rnd inp now g =
     sweep (powerups_phase rnd (projectiles_phase rnd (wave_completion rnd
       (edge_response (snd (enemies_phase rnd (Player_update inp now g)))
          (fst (enemies_phase rnd (Player_update inp now g)))))))"
  by (simp add: step_def Let_def split: prod.splits)

subsection \<open>Evaluating a frame at a concrete world\<close>

lemmas frame_defs = step_def animate_def Player_update_def Player_move_def enemies_phase_def
  enemy_step_def enemy_dx_def edge_response_def wave_completion_def projectiles_phase_def
  projectile_step_def Projectile_update_def hit_player_def hit_enemy_def powerups_phase_def
  powerup_step_def Powerup_update_def sweep_def random_def playSound_def
  checkCollision_def new_Player_def new_Projectile_def new_Enemy_def new_Powerup_def
  initialGame_def GAME_WIDTH_def GAME_HEIGHT_def rndHalf_def noInput_def
  fireProjectile_def Let_def

subsection \<open>The sweep\<close>

text \<open>
  Claim C6. After a frame run while the state is \<^verbatim>\<open>PLAYING\<close>, no entity left in
  the enemies, projectiles, power-ups or particles is marked for deletion: whatever was
  marked during the frame is removed by the filters at its end.
\<close>

theorem sweep_leaves_no_marked_entity:
  assumes "gameState g = PLAYING"
  shows "(\<forall>e\<in>set (enemies (animate rnd inp now g)). \<not> markedForDeletion e) \<and>
         (\<forall>p\<in>set (projectiles (animate rnd inp now g)). \<not> markedForDeletion p) \<and>
         (\<forall>p\<in>set (powerups (animate rnd inp now g)). \<not> markedForDeletion p) \<and>
         (\<forall>p\<in>set (particles (animate rnd inp now g)). \<not> markedForDeletion p)"
  using assms by (simp add: animate_def step_unfold)

text \<open>
  Witness for C6: in \<open>gridShot\<close> the projectile hits the first of the two enemies; after
  the frame one enemy and no projectile are left, and nothing left is marked.
\<close>

theorem sweep_leaves_no_marked_entity_witness:
  "gameState gridShot = PLAYING \<and>
   filter markedForDeletion (enemies (animate rndHalf noInput 0 gridShot)) = [] \<and>
   filter markedForDeletion (projectiles (animate rndHalf noInput 0 gridShot)) = [] \<and>
   filter markedForDeletion (powerups (animate rndHalf noInput 0 gridShot)) = [] \<and>
   filter markedForDeletion (particles (animate rndHalf noInput 0 gridShot)) = [] \<and>
   length (enemies gridShot) = 2 \<and>
   length (enemies (animate rndHalf noInput 0 gridShot)) = 1 \<and>
   length (projectiles gridShot) = 1 \<and>
   projectiles (animate rndHalf noInput 0 gridShot) = []"
proof -
  have st: "gameState gridShot = PLAYING"
    by (simp add: gridShot_def)
  have "length (enemies (animate rndHalf noInput 0 gridShot)) = 1"
    by (simp add: gridShot_def frame_defs)
  moreover have "projectiles (animate rndHalf noInput 0 gridShot) = []"
    by (simp add: gridShot_def frame_defs)
  moreover have "length (enemies gridShot) = 2" "length (projectiles gridShot) = 1"
    by (simp_all add: gridShot_def)
  ultimately show ?thesis
    using st sweep_leaves_no_marked_entity [OF st, of rndHalf noInput 0]
    by (simp add: filter_empty_conv)
qed

subsection \<open>The score\<close>

lemma wave_completion_points:
  assumes "\<forall>e\<in>set (enemies g). 0 \<le> points e"
  shows "\<forall>e\<in>set (enemies (wave_completion rnd g)). 0 \<le> points e"
  using assms initEnemies_wave(2) by (simp add: wave_completion_def Let_def)

lemma step_score:
  assumes wf: "\<forall>e\<in>set (enemies g). 0 \<le> points e"
  shows "score g \<le> score (step rnd inp now g) \<and>
         (\<forall>e\<in>set (enemies (step rnd inp now g)). 0 \<le> points e)"
proof -
  define g1 where "g1 = Player_update inp now g"
  define g3 where "g3 = edge_response (snd (enemies_phase rnd g1)) (fst (enemies_phase rnd g1))"
  define g4 where "g4 = wave_completion rnd g3"
  define g5 where "g5 = projectiles_phase rnd g4"
  have st: "step rnd inp now g = sweep (powerups_phase rnd g5)"
    by (simp add: step_unfold g1_def g3_def g4_def g5_def)
  have wf3: "\<forall>e\<in>set (enemies g3). 0 \<le> points e"
    using wf by (simp add: g3_def g1_def enemies_phase_result)
  have s3: "score g3 = score g"
    by (simp add: g3_def g1_def enemies_phase_result)
  have wf4: "\<forall>e\<in>set (enemies g4). 0 \<le> points e"
    unfolding g4_def by (rule wave_completion_points [OF wf3])
  have s4: "score g \<le> score g4"
    using s3 by (simp add: g4_def)
  have s5: "score g4 \<le> score g5"
    unfolding g5_def by (rule projectiles_phase_result(6) [OF wf4])
  have wf5: "\<forall>e\<in>set (enemies g5). 0 \<le> points e"
    using wf4 points_nonneg_cong [OF projectiles_phase_result(5) [of rnd g4]]
    by (simp add: g5_def)
  from s4 s5 wf5 show ?thesis
    by (simp add: st)
qed

lemma animate_score:
  assumes "\<forall>e\<in>set (enemies g). 0 \<le> points e"
  shows "score g \<le> score (animate rnd inp now g) \<and>
         (\<forall>e\<in>set (enemies (animate rnd inp now g)). 0 \<le> points e)"
  using assms step_score [OF assms] by (simp add: animate_def)

text \<open>
  Claim C7. Within a run, that is over any sequence of frames with no restart in it,
  the score never decreases. Every enemy carries the non-negative point value its
  constructor gave it; the frames keep that.
\<close>

theorem score_never_decreases:
  assumes "\<forall>e\<in>set (enemies g). 0 \<le> points e" and "Start \<notin> set evs"
  shows "score g \<le> score (run rnd evs g)"
  using assms
proof (induction evs arbitrary: g)
  case Nil
  then show ?case by simp
next
  case (Cons ev evs)
  then obtain inp now where ev: "ev = Frame inp now"
    by (cases ev) auto
  from Cons.prems have rest: "Start \<notin> set evs" by simp
  from animate_score [OF Cons.prems(1)]
  have a: "score g \<le> score (animate rnd inp now g)"
    and wf: "\<forall>e\<in>set (enemies (animate rnd inp now g)). 0 \<le> points e"
    by blast+
  from Cons.IH [OF wf rest] a show ?case
    by (simp add: ev)
qed

text \<open>
  Witness for C7: one frame from \<open>gridShot\<close>, in which the projectile destroys an enemy
  of 30 points, takes the score from 740 to 770.
\<close>

theorem score_never_decreases_witness:
  "map points (enemies gridShot) = [30, 30] \<and>
   Start \<notin> set [Frame noInput 0] \<and>
   score gridShot \<le> score (run rndHalf [Frame noInput 0] gridShot) \<and>
   score gridShot = 740 \<and>
   score (run rndHalf [Frame noInput 0] gridShot) = 770"
proof -
  have pts: "map points (enemies gridShot) = [30, 30]"
    by (simp add: gridShot_def new_Enemy_def)
  have wf: "\<forall>e\<in>set (enemies gridShot). 0 \<le> points e"
    by (simp add: gridShot_def new_Enemy_def)
  have ns: "Start \<notin> set [Frame noInput 0]" by simp
  have "score (animate rndHalf noInput 0 gridShot) = 770"
    by (simp add: gridShot_def frame_defs)
  moreover have "score gridShot = 740"
    by (simp add: gridShot_def initialGame_def)
  ultimately show ?thesis
    using pts ns score_never_decreases [OF wf ns, of rndHalf] by simp
qed

subsection \<open>The edge bounce\<close>

lemma hitsEdge_Player_update [simp]: "hitsEdge (Player_update inp now g) = hitsEdge g"
  by (simp add: hitsEdge_def)

lemma same_up_to_marks:
  fixes xs ys :: "Enemy list"
  assumes "map (\<lambda>e. e\<lparr>markedForDeletion := True\<rparr>) xs =
           map (\<lambda>e. e\<lparr>markedForDeletion := True\<rparr>) ys"
  shows "map posX xs = map posX ys" and "map posY xs = map posY ys"
proof -
  have "map posX xs = map posX (map (\<lambda>e. e\<lparr>markedForDeletion := True\<rparr>) xs)"
    by (simp add: comp_def)
  also have "\<dots> = map posX (map (\<lambda>e. e\<lparr>markedForDeletion := True\<rparr>) ys)"
    by (simp only: assms)
  also have "\<dots> = map posX ys"
    by (simp add: comp_def)
  finally show "map posX xs = map posX ys" .
  have "map posY xs = map posY (map (\<lambda>e. e\<lparr>markedForDeletion := True\<rparr>) xs)"
    by (simp add: comp_def)
  also have "\<dots> = map posY (map (\<lambda>e. e\<lparr>markedForDeletion := True\<rparr>) ys)"
    by (simp only: assms)
  also have "\<dots> = map posY ys"
    by (simp add: comp_def)
  finally show "map posY xs = map posY ys" .
qed

text \<open>
  Claim C5. In every frame \<^verbatim>\<open>enemyDir\<close> stays in \<open>{+1, -1}\<close>. It changes sign, once,
  exactly when some enemy's \<^verbatim>\<open>x\<close> is at most 10 or at least \<open>GAME_WIDTH - 40\<close> after
  this frame's horizontal move, and then every enemy's \<^verbatim>\<open>y\<close> grows by exactly 20;
  otherwise \<^verbatim>\<open>enemyDir\<close> and every enemy's \<^verbatim>\<open>y\<close> are unchanged. The enemies at the
  end of the frame are the moved enemies, in order, without those marked for deletion.
\<close>

theorem edge_bounce:
  assumes "enemyDir g = 1 \<or> enemyDir g = - 1"
  shows "(enemyDir (step rnd inp now g) = 1 \<or> enemyDir (step rnd inp now g) = - 1) \<and>
         enemyDir (step rnd inp now g) = (if hitsEdge g then - enemyDir g else enemyDir g) \<and>
         (enemies g \<noteq> [] \<longrightarrow>
            (\<exists>es'. enemies (step rnd inp now g) = filter (\<lambda>e. \<not> markedForDeletion e) es' \<and>
               map posX es' = map (\<lambda>e. posX e + enemy_dx g) (enemies g) \<and>
               map posY es' =
                 map (\<lambda>e. posY e + (if hitsEdge g then 20 else 0)) (enemies g)))"
proof -
  define g1 where "g1 = Player_update inp now g"
  define g3 where "g3 = edge_response (snd (enemies_phase rnd g1)) (fst (enemies_phase rnd g1))"
  define g4 where "g4 = wave_completion rnd g3"
  define g5 where "g5 = projectiles_phase rnd g4"
  have st: "step rnd inp now g = sweep (powerups_phase rnd g5)"
    by (simp add: step_unfold g1_def g3_def g4_def g5_def)
  have dir3: "enemyDir g3 = (if hitsEdge g then - enemyDir g else enemyDir g)"
    by (simp add: g3_def g1_def enemies_phase_result)
  have dir: "enemyDir (step rnd inp now g) = (if hitsEdge g then - enemyDir g else enemyDir g)"
    using dir3 by (simp add: st g5_def g4_def projectiles_phase_result)
  have en3: "enemies g3 =
      (if hitsEdge g
       then map (\<lambda>e. e\<lparr>posY := posY e + 20\<rparr>)
              (map (\<lambda>e. e\<lparr>posX := posX e + enemy_dx g\<rparr>) (enemies g))
       else map (\<lambda>e. e\<lparr>posX := posX e + enemy_dx g\<rparr>) (enemies g))"
    by (simp add: g3_def g1_def enemies_phase_result)
  have es: "\<exists>es'. enemies (step rnd inp now g) = filter (\<lambda>e. \<not> markedForDeletion e) es' \<and>
               map posX es' = map (\<lambda>e. posX e + enemy_dx g) (enemies g) \<and>
               map posY es' =
                 map (\<lambda>e. posY e + (if hitsEdge g then 20 else 0)) (enemies g)"
    if ne: "enemies g \<noteq> []"
  proof -
    from ne en3 have "enemies g3 \<noteq> []" by simp
    then have g4: "g4 = g3" by (simp add: g4_def wave_completion_def)
    have m: "map (\<lambda>e. e\<lparr>markedForDeletion := True\<rparr>) (enemies g5) =
             map (\<lambda>e. e\<lparr>markedForDeletion := True\<rparr>) (enemies g3)"
      using projectiles_phase_result(4) [of rnd g4] by (simp add: g5_def g4)
    have "enemies (step rnd inp now g) = filter (\<lambda>e. \<not> markedForDeletion e) (enemies g5)"
      by (simp add: st)
    moreover have "map posX (enemies g5) = map (\<lambda>e. posX e + enemy_dx g) (enemies g)"
      using same_up_to_marks(1) [OF m] en3 by (simp add: comp_def)
    moreover have "map posY (enemies g5) =
        map (\<lambda>e. posY e + (if hitsEdge g then 20 else 0)) (enemies g)"
      using same_up_to_marks(2) [OF m] en3 by (simp add: comp_def)
    ultimately show ?thesis by blast
  qed
  from assms dir es show ?thesis by auto
qed

text \<open>
  Witness for C5: in \<open>atRightMargin\<close> the first enemy moves past \<open>x = 760\<close>; the direction
  flips from 1 to \<open>-1\<close> and both enemies step down by 20.
\<close>

theorem edge_bounce_witness:
  "(enemyDir atRightMargin = 1 \<or> enemyDir atRightMargin = - 1) \<and>
   hitsEdge atRightMargin \<and> enemies atRightMargin \<noteq> [] \<and>
   enemyDir (step rndHalf noInput 0 atRightMargin) = - 1 \<and>
   map posY (enemies atRightMargin) = [100, 150] \<and>
   map posY (enemies (step rndHalf noInput 0 atRightMargin)) = [120, 170]"
proof -
  have d: "enemyDir atRightMargin = 1 \<or> enemyDir atRightMargin = - 1"
    by (simp add: atRightMargin_def initialGame_def)
  have h: "hitsEdge atRightMargin"
    by (simp add: hitsEdge_def atRightMargin_def initialGame_def new_Enemy_def enemy_dx_def
        GAME_WIDTH_def)
  have e: "enemies atRightMargin \<noteq> []"
    by (simp add: atRightMargin_def)
  have y0: "map posY (enemies atRightMargin) = [100, 150]"
    by (simp add: atRightMargin_def new_Enemy_def)
  have y1: "map posY (enemies (step rndHalf noInput 0 atRightMargin)) = [120, 170]"
    by (simp add: atRightMargin_def frame_defs)
  have "enemyDir atRightMargin = 1"
    by (simp add: atRightMargin_def initialGame_def)
  with d h e y0 y1 edge_bounce [OF d, of rndHalf noInput 0] show ?thesis
    by simp
qed

subsection \<open>Wave completion\<close>




lemma randCalls_Player_update [simp]: "randCalls (Player_update inp now g) = randCalls g"
  by (simp add: Player_update_def fireProjectile_def playSound_def Let_def)








subsection \<open>The lives\<close>

lemma lives_inv_cong:
  assumes "lives g' = lives g" and "gameState g' = gameState g"
  shows "lives_inv g' = lives_inv g"
  using assms by (simp add: lives_inv_def)

lemma enemy_step_lives_inv:
  assumes "enemy_step rnd e g h = (e', g', h')" and "lives_inv g"
  shows "lives_inv g'"
  using assms
  by (auto simp: enemy_step_def random_def playSound_def lives_inv_def Let_def
      split: if_splits)

lemma hit_player_lives_inv:
  assumes "hit_player rnd p g = (p', g')" and "lives_inv g"
  shows "lives_inv g'"
  using assms
  by (auto simp: hit_player_def playSound_def lives_inv_def Let_def split: if_splits)

lemma powerup_step_lives_inv:
  assumes "powerup_step rnd p g = (p', g')" and "lives_inv g"
  shows "lives_inv g'"
  using assms
  by (auto simp: powerup_step_def playSound_def lives_inv_def Let_def split: if_splits)

lemma projectile_step_lives_inv:
  assumes "projectile_step rnd p g = (p', g')" and "lives_inv g"
  shows "lives_inv g'"
proof (cases "isPlayer p")
  case True
  obtain es p2 g1 where h: "hit_enemies rnd (enemies g) (Projectile_update p) g = (es, p2, g1)"
    by (cases "hit_enemies rnd (enemies g) (Projectile_update p) g") auto
  with assms(1) True have "g' = g1\<lparr>enemies := es\<rparr>"
    by (simp add: projectile_step_player)
  with hit_enemies_result [OF h] assms(2) show ?thesis
    by (simp add: lives_inv_def)
next
  case False
  with assms(1) have "hit_player rnd (Projectile_update p) g = (p', g')"
    by (simp add: projectile_step_enemy)
  from hit_player_lives_inv [OF this assms(2)] show ?thesis .
qed

lemma step_lives_inv:
  assumes "lives_inv g"
  shows "lives_inv (step rnd inp now g)"
proof -
  define g1 where "g1 = Player_update inp now g"
  obtain es g2 h where l2: "enemies_forEach rnd (enemies g1) g1 False = (es, g2, h)"
    by (cases "enemies_forEach rnd (enemies g1) g1 False") auto
  define g4 where "g4 = wave_completion rnd (edge_response h (g2\<lparr>enemies := es\<rparr>))"
  obtain ps g5 where l5: "projectiles_forEach rnd (projectiles g4) g4 = (ps, g5)"
    by (cases "projectiles_forEach rnd (projectiles g4) g4") auto
  define g5' where "g5' = g5\<lparr>projectiles := ps\<rparr>"
  obtain us g6 where l6: "powerups_forEach rnd (powerups g5') g5' = (us, g6)"
    by (cases "powerups_forEach rnd (powerups g5') g5'") auto
  have st: "step rnd inp now g = sweep (g6\<lparr>powerups := us\<rparr>)"
    using l2 l5 l6
    by (simp add: step_def g1_def [symmetric] enemies_phase_def g4_def [symmetric]
        projectiles_phase_def g5'_def [symmetric] powerups_phase_def)
  have i1: "lives_inv g1"
    using assms by (simp add: g1_def lives_inv_def)
  have i2: "lives_inv g2"
    by (rule enemies_forEach_preserves [where P = lives_inv, OF _ l2 i1])
      (rule enemy_step_lives_inv)
  have i4: "lives_inv g4"
    using i2 by (simp add: g4_def lives_inv_def)
  have i5: "lives_inv g5"
    by (rule projectiles_forEach_preserves [where P = lives_inv, OF _ l5 i4])
      (rule projectile_step_lives_inv)
  then have i5': "lives_inv g5'"
    by (simp add: g5'_def lives_inv_def)
  have i6: "lives_inv g6"
    by (rule powerups_forEach_preserves [where P = lives_inv, OF _ l6 i5'])
      (rule powerup_step_lives_inv)
  then show ?thesis
    by (simp add: st lives_inv_def)
qed

lemma startGame_lives_inv:
  assumes "lives_inv g"
  shows "lives_inv (startGame rnd g)"
  using assms by (auto simp: startGame_def initGame_def lives_inv_def Let_def)

lemma animate_lives_inv:
  assumes "lives_inv g"
  shows "lives_inv (animate rnd inp now g)"
  using assms step_lives_inv [OF assms] by (simp add: animate_def)

text \<open>
  Claim C1, as amended. In every world reachable from the initial one by frames and
  restarts, the lives never exceed 5, and whenever the lives are 0 or less the state is
  \<^verbatim>\<open>GAMEOVER\<close>: a frame that brings the lives to 0 sets the state to \<^verbatim>\<open>GAMEOVER\<close>
  in that same frame, and every world that is still \<^verbatim>\<open>PLAYING\<close> has between 1 and 5
  lives. (The lives can become negative in the frame that ends the game.)
\<close>

theorem lives_bounded:
  "lives_inv initialGame \<and> (lives_inv g \<longrightarrow> lives_inv (run rnd evs g))"
proof
  show "lives_inv initialGame"
    by (simp add: lives_inv_def initialGame_def)
  show "lives_inv g \<longrightarrow> lives_inv (run rnd evs g)"
  proof (induction evs arbitrary: g)
    case Nil
    then show ?case by simp
  next
    case (Cons ev evs)
    show ?case
    proof (cases ev)
      case (Frame inp now)
      with Cons.IH [of "animate rnd inp now g"] animate_lives_inv [of g rnd inp now]
      show ?thesis by simp
    next
      case Start
      with Cons.IH [of "startGame rnd g"] startGame_lives_inv [of g rnd]
      show ?thesis by simp
    qed
  qed
qed

text \<open>
  Witness for C1: one frame from \<open>lastLife\<close> ends with \<open>-1\<close> lives, and with the state
  \<^verbatim>\<open>GAMEOVER\<close>.
\<close>

theorem lives_bounded_witness:
  "lives_inv lastLife \<and>
   lives (run rndHalf [Frame noInput 0] lastLife) \<le> 0 \<and>
   gameState (run rndHalf [Frame noInput 0] lastLife) = GAMEOVER"
proof -
  have i: "lives_inv lastLife"
    by (simp add: lives_inv_def lastLife_def initialGame_def)
  have l: "lives (animate rndHalf noInput 0 lastLife) = - 1"
    by (simp add: lastLife_def frame_defs)
  from lives_bounded [of lastLife rndHalf "[Frame noInput 0]"] i
  have "lives_inv (run rndHalf [Frame noInput 0] lastLife)" by simp
  with i l show ?thesis
    by (simp add: lives_inv_def)
qed

text \<open>
  Counterexample to C1 as stated: \<open>lastLife\<close> is a \<^verbatim>\<open>PLAYING\<close> world with one life;
  both enemy projectiles hit the player in the same frame, and the lives go from 1 to
  \<open>-1\<close>.
\<close>

theorem lives_negative_counterexample:
  "gameState lastLife = PLAYING \<and> lives lastLife = 1 \<and>
   lives (animate rndHalf noInput 0 lastLife) = - 1 \<and>
   lives (animate rndHalf noInput 0 lastLife) < 0"
  by (simp add: lastLife_def frame_defs)

subsection \<open>The gameover sound\<close>

lemma gameover_link_refl: "gameover_link g g"
  by (simp add: gameover_link_def)

lemma gameover_link_trans:
  assumes "gameover_link g g'" and "gameover_link g' g''"
  shows "gameover_link g g''"
proof -
  from assms(1) obtain ns where 1: "sounds g' = sounds g @ ns"
    "gameState g' = (if SndGameover \<in> set ns then GAMEOVER else gameState g)"
    unfolding gameover_link_def by blast
  from assms(2) obtain ms where 2: "sounds g'' = sounds g' @ ms"
    "gameState g'' = (if SndGameover \<in> set ms then GAMEOVER else gameState g')"
    unfolding gameover_link_def by blast
  from 1 2 have "sounds g'' = sounds g @ (ns @ ms) \<and>
      gameState g'' = (if SndGameover \<in> set (ns @ ms) then GAMEOVER else gameState g)"
    by simp
  then show ?thesis
    unfolding gameover_link_def by blast
qed

lemma gameover_link_same:
  assumes "sounds g' = sounds g" and "gameState g' = gameState g"
  shows "gameover_link g g'"
  using assms by (simp add: gameover_link_def)

lemma gameover_link_cong:
  assumes "sounds g'' = sounds g'" and "gameState g'' = gameState g'"
  shows "gameover_link g g'' = gameover_link g g'"
  using assms by (simp add: gameover_link_def)

lemma enemy_step_gameover:
  assumes "enemy_step rnd e g h = (e', g', h')"
  shows "gameover_link g g'"
proof (cases "posY e + height e \<ge> posY (player g)")
  case True
  with assms have "sounds g' = sounds g @ [SndGameover] \<and> gameState g' = GAMEOVER"
    by (auto simp: enemy_step_def random_def playSound_def Let_def split: if_splits)
  then show ?thesis
    by (simp add: gameover_link_def)
next
  case False
  with assms have "sounds g' = sounds g \<and> gameState g' = gameState g"
    by (auto simp: enemy_step_def random_def playSound_def Let_def split: if_splits)
  then show ?thesis
    by (simp add: gameover_link_def)
qed

lemma hit_enemy_gameover:
  assumes "hit_enemy rnd e p g = (e', p', g')"
  shows "gameover_link g g'"
  using hit_enemy_result(7,10) [OF assms]
  by (simp add: gameover_link_def)

lemma hit_player_gameover:
  assumes "hit_player rnd p g = (p', g')"
  shows "gameover_link g g'"
proof -
  consider (miss) "\<not> checkCollision p (player g)"
    | (hit) "checkCollision p (player g)" "\<not> lives g - 1 \<le> 0"
    | (last) "checkCollision p (player g)" "lives g - 1 \<le> 0"
    by blast
  then show ?thesis
  proof cases
    case miss
    with assms have "g' = g" by (simp add: hit_player_def)
    then show ?thesis by (simp add: gameover_link_refl)
  next
    case hit
    with assms have "sounds g' = sounds g @ [SndExplosion] \<and> gameState g' = gameState g"
      by (auto simp: hit_player_def playSound_def Let_def)
    then show ?thesis by (simp add: gameover_link_def)
  next
    case last
    with assms have "sounds g' = sounds g @ [SndExplosion, SndGameover] \<and>
        gameState g' = GAMEOVER"
      by (auto simp: hit_player_def playSound_def Let_def)
    then show ?thesis by (simp add: gameover_link_def)
  qed
qed

lemma powerup_step_gameover:
  assumes "powerup_step rnd p g = (p', g')"
  shows "gameover_link g g'"
proof (cases "checkCollision (Powerup_update p) (player g)")
  case True
  with assms have "sounds g' = sounds g @ [SndPowerup] \<and> gameState g' = gameState g"
    by (auto simp: powerup_step_def playSound_def Let_def)
  then show ?thesis by (simp add: gameover_link_def)
next
  case False
  with assms have "g' = g" by (auto simp: powerup_step_def Let_def)
  then show ?thesis by (simp add: gameover_link_refl)
qed

lemma projectile_step_gameover:
  assumes "projectile_step rnd p g = (p', g')"
  shows "gameover_link g g'"
proof (cases "isPlayer p")
  case True
  obtain es p2 g1 where h: "hit_enemies rnd (enemies g) (Projectile_update p) g = (es, p2, g1)"
    by (cases "hit_enemies rnd (enemies g) (Projectile_update p) g") auto
  with assms True have g': "g' = g1\<lparr>enemies := es\<rparr>"
    by (simp add: projectile_step_player)
  have "gameover_link g g1"
    by (rule hit_enemies_preserves [where P = "gameover_link g", OF _ h gameover_link_refl])
      (blast intro: gameover_link_trans hit_enemy_gameover)
  then show ?thesis
    by (simp add: g' gameover_link_def)
next
  case False
  with assms have "hit_player rnd (Projectile_update p) g = (p', g')"
    by (simp add: projectile_step_enemy)
  from hit_player_gameover [OF this] show ?thesis .
qed

lemma step_gameover:
  "gameover_link g (step rnd inp now g)"
proof -
  define g1 where "g1 = Player_update inp now g"
  obtain es g2 h where l2: "enemies_forEach rnd (enemies g1) g1 False = (es, g2, h)"
    by (cases "enemies_forEach rnd (enemies g1) g1 False") auto
  define g4 where "g4 = wave_completion rnd (edge_response h (g2\<lparr>enemies := es\<rparr>))"
  obtain ps g5 where l5: "projectiles_forEach rnd (projectiles g4) g4 = (ps, g5)"
    by (cases "projectiles_forEach rnd (projectiles g4) g4") auto
  define g5' where "g5' = g5\<lparr>projectiles := ps\<rparr>"
  obtain us g6 where l6: "powerups_forEach rnd (powerups g5') g5' = (us, g6)"
    by (cases "powerups_forEach rnd (powerups g5') g5'") auto
  have st: "step rnd inp now g = sweep (g6\<lparr>powerups := us\<rparr>)"
    using l2 l5 l6
    by (simp add: step_def g1_def [symmetric] enemies_phase_def g4_def [symmetric]
        projectiles_phase_def g5'_def [symmetric] powerups_phase_def)
  have k1: "gameover_link g g1"
    by (simp add: gameover_link_def g1_def Player_update_def fireProjectile_def
        playSound_def Let_def)
  have k2: "gameover_link g1 g2"
    by (rule enemies_forEach_preserves [where P = "gameover_link g1", OF _ l2 gameover_link_refl])
      (blast intro: gameover_link_trans enemy_step_gameover)
  have k4: "gameover_link g2 g4"
    by (simp add: gameover_link_def g4_def)
  have k5: "gameover_link g4 g5"
    by (rule projectiles_forEach_preserves
        [where P = "gameover_link g4", OF _ l5 gameover_link_refl])
      (blast intro: gameover_link_trans projectile_step_gameover)
  have k5': "gameover_link g5 g5'"
    by (simp add: gameover_link_def g5'_def)
  have k6: "gameover_link g5' g6"
    by (rule powerups_forEach_preserves
        [where P = "gameover_link g5'", OF _ l6 gameover_link_refl])
      (blast intro: gameover_link_trans powerup_step_gameover)
  have k7: "gameover_link g6 (step rnd inp now g)"
    by (simp add: gameover_link_def st)
  from k1 k2 k4 k5 k5' k6 k7 show ?thesis
    by (blast intro: gameover_link_trans)
qed


text \<open>
  Claim C8, as amended. A frame run in state \<^verbatim>\<open>PLAYING\<close> only appends to the sounds
  played, and it ends in state \<^verbatim>\<open>GAMEOVER\<close> if and only if at least one gameover sound
  is among the sounds it appended: the frame that makes the transition plays the gameover
  sound at least once, possibly several times, and a frame that does not make the
  transition plays none.
\<close>

theorem gameover_sound:
  assumes "gameState g = PLAYING"
  shows "\<exists>ns. sounds (animate rnd inp now g) = sounds g @ ns \<and>
           (gameState (animate rnd inp now g) = GAMEOVER \<longleftrightarrow> SndGameover \<in> set ns)"
proof -
  from step_gameover [of g rnd inp now] obtain ns
    where "sounds (step rnd inp now g) = sounds g @ ns"
      and "gameState (step rnd inp now g) =
             (if SndGameover \<in> set ns then GAMEOVER else gameState g)"
    unfolding gameover_link_def by blast
  with assms have "sounds (animate rnd inp now g) = sounds g @ ns \<and>
           (gameState (animate rnd inp now g) = GAMEOVER \<longleftrightarrow> SndGameover \<in> set ns)"
    by (simp add: animate_def)
  then show ?thesis by blast
qed

text \<open>
  Witness for C8: the frame from \<open>lastLife\<close> ends the game, and gameover sounds are among
  the sounds it plays.
\<close>

theorem gameover_sound_witness:
  "gameState lastLife = PLAYING \<and>
   gameState (animate rndHalf noInput 0 lastLife) = GAMEOVER \<and>
   (\<exists>ns. sounds (animate rndHalf noInput 0 lastLife) = sounds lastLife @ ns \<and>
         SndGameover \<in> set ns)"
proof -
  have p: "gameState lastLife = PLAYING"
    by (simp add: lastLife_def)
  have "gameState (animate rndHalf noInput 0 lastLife) = GAMEOVER"
    by (simp add: lastLife_def frame_defs)
  with p gameover_sound [OF p, of rndHalf noInput 0] show ?thesis
    by auto
qed

text \<open>
  Counterexample to C8 as stated: in \<open>rowReached\<close> two enemies are at the player's row;
  the one frame that makes the transition to \<^verbatim>\<open>GAMEOVER\<close> plays the gameover sound
  twice.
\<close>

theorem gameover_sound_twice_counterexample:
  "gameState rowReached = PLAYING \<and> sounds rowReached = [] \<and>
   gameState (animate rndHalf noInput 0 rowReached) = GAMEOVER \<and>
   sounds (animate rndHalf noInput 0 rowReached) = [SndGameover, SndGameover] \<and>
   count_list (sounds (animate rndHalf noInput 0 rowReached)) SndGameover = 2"
  by (simp add: rowReached_def frame_defs)

end
